theory Spec2Isabelle
  imports Main "HOL-Library.Sublist"
begin

section \<open>String primitives of the host language\<close>

text \<open>
  The module uses three string operations of JavaScript: \<^verbatim>\<open>s.includes(p)\<close>,
  \<^verbatim>\<open>s.replace(p, r)\<close> with a string pattern, and \<^verbatim>\<open>s.replace(re, r)\<close> with a
  regular expression without the global flag. Strings are modelled as \<^typ>\<open>string\<close>.
  None of the replacement strings of the module holds a dollar sign, so a replacement is
  inserted literally.
\<close>

text \<open>\<^verbatim>\<open>s.includes(p)\<close>: some position of \<open>s\<close> starts with \<open>p\<close>.\<close>

fun str_includes :: "string \<Rightarrow> string \<Rightarrow> bool" where
  "str_includes [] p = (p = [])"
| "str_includes (c # cs) p = (prefix p (c # cs) \<or> str_includes cs p)"

text \<open>
  \<^verbatim>\<open>s.replace(p, r)\<close> with a string \<open>p\<close>: the scan goes from the left, and the first
  position that starts with \<open>p\<close> has \<open>p\<close> replaced by \<open>r\<close>; without such a position the
  string is returned as it is.
\<close>

fun str_replace :: "string \<Rightarrow> string \<Rightarrow> string \<Rightarrow> string" where
  "str_replace [] p r = (if p = [] then r else [])"
| "str_replace (c # cs) p r =
     (if prefix p (c # cs) then r @ drop (length p) (c # cs) else c # str_replace cs p r)"

text \<open>
  The fragment of regular expressions that the module's one pattern needs: a literal
  character, a greedy optional character (\<^verbatim>\<open>c?\<close>) and the end-of-input anchor
  (\<^verbatim>\<open>$\<close> without the multiline flag). A pattern is a sequence of these.
\<close>

datatype atom = Lit char | Opt char | End

text \<open>
  The backtracking matcher, anchored at the start of its input: the rest of the input
  after the match, or \<open>None\<close>. The optional character is tried first with the character
  and then without it.
\<close>

fun re_match :: "atom list \<Rightarrow> string \<Rightarrow> string option" where
  "re_match [] s = Some s"
| "re_match (Lit c # as) [] = None"
| "re_match (Lit c # as) (x # xs) = (if x = c then re_match as xs else None)"
| "re_match (Opt c # as) [] = re_match as []"
| "re_match (Opt c # as) (x # xs) =
     (if x = c then (case re_match as xs of Some rest \<Rightarrow> Some rest | None \<Rightarrow> re_match as (x # xs))
      else re_match as (x # xs))"
| "re_match (End # as) s = (if s = [] then re_match as s else None)"

text \<open>
  \<^verbatim>\<open>s.replace(re, r)\<close> without the global flag: the leftmost position at which the
  pattern matches has the matched text replaced by \<open>r\<close>; the position after the last
  character is tried as well.
\<close>

fun regex_replace :: "string \<Rightarrow> atom list \<Rightarrow> string \<Rightarrow> string" where
  "regex_replace [] re r = (case re_match re [] of Some rest \<Rightarrow> r @ rest | None \<Rightarrow> [])"
| "regex_replace (c # cs) re r =
     (case re_match re (c # cs) of Some rest \<Rightarrow> r @ rest | None \<Rightarrow> c # regex_replace cs re r)"

section \<open>Data model\<close>

text \<open>The interface \<^verbatim>\<open>DatabricksProviderConfig\<close>; an optional field is an option.\<close>

record DatabricksProviderConfig =
  baseURL :: string
  apiKey :: string
  headers :: "(string \<rightharpoonup> string) option"
  name :: "string option"

text \<open>
  The three kinds of request target of \<^verbatim>\<open>fetch\<close>: a string, a \<^verbatim>\<open>URL\<close> object (whose
  \<^verbatim>\<open>toString()\<close> is its \<open>href\<close>) and a \<^verbatim>\<open>Request\<close> object, which carries a method,
  headers and a body of its own next to its \<open>url\<close>.
\<close>

record URL =
  href :: string

record Request =
  url :: string
  req_method :: string
  req_headers :: "(string \<times> string) list"
  req_body :: "string option"

datatype RequestInfo = Str string | UrlObj URL | Req Request

text \<open>
  The options object \<^verbatim>\<open>RequestInit\<close>. The wrapper never looks inside it, so its
  functions are polymorphic in the type of the options; this record is the instance used
  in examples.
\<close>

record RequestInit =
  init_method :: "string option"
  init_headers :: "(string \<times> string) list option"
  init_body :: "string option"

text \<open>
  The type of \<^verbatim>\<open>fetch\<close>. A call acts on the outside world \<open>'w\<close> and settles its promise
  with a rejection reason \<open>'e\<close> or a response \<open>'r\<close>. The second argument is optional.
\<close>

type_synonym ('i, 'w, 'e, 'r) fetch = "RequestInfo \<Rightarrow> 'i option \<Rightarrow> 'w \<Rightarrow> ('e + 'r) \<times> 'w"

text \<open>
  The object literal handed to the external factory \<^verbatim>\<open>createOpenAICompatible\<close>, with
  its fields \<^verbatim>\<open>name\<close>, \<^verbatim>\<open>baseURL\<close>, \<^verbatim>\<open>apiKey\<close>, \<^verbatim>\<open>headers\<close> and \<^verbatim>\<open>fetch\<close> (prefixed here,
  since the configuration record has fields of the same names).
\<close>

record ('i, 'w, 'e, 'r) OpenAICompatibleSettings =
  provider_name :: string
  provider_baseURL :: string
  provider_apiKey :: string
  provider_headers :: "(string \<rightharpoonup> string) option"
  provider_fetch :: "('i, 'w, 'e, 'r) fetch"

text \<open>
  The external factory is opaque: it is a parameter, acting on the outside world and
  returning a provider \<open>'p\<close>.
\<close>

type_synonym ('i, 'w, 'e, 'r, 'p) factory =
  "('i, 'w, 'e, 'r) OpenAICompatibleSettings \<Rightarrow> 'w \<Rightarrow> 'p \<times> 'w"

text \<open>\<^verbatim>\<open>new Error(message)\<close>.\<close>

datatype error = Error string

section \<open>The URL rewriter\<close>

definition chat_completions :: string where
  "chat_completions = ''/chat/completions''"

definition invocations :: string where
  "invocations = ''/invocations''"

text \<open>Lines 40 to 47: the request target as a URL string.\<close>

fun toUrlString :: "RequestInfo \<Rightarrow> string" where
  "toUrlString (Str s) = s"
| "toUrlString (UrlObj u) = href u"
| "toUrlString (Req r) = url r"

text \<open>Lines 50 to 52: the guarded replacement.\<close>

definition rewriteUrl :: "string \<Rightarrow> string" where
  "rewriteUrl u =
     (if str_includes u chat_completions then str_replace u chat_completions invocations else u)"

text \<open>
  \<^verbatim>\<open>createDatabricksFetch\<close>; the global \<^verbatim>\<open>fetch\<close> that it calls is the first argument.
  The returned function calls it with the rewritten URL string and with \<open>init\<close>.
\<close>

definition createDatabricksFetch :: "('i, 'w, 'e, 'r) fetch \<Rightarrow> ('i, 'w, 'e, 'r) fetch" where
  "createDatabricksFetch fetch = (\<lambda>input init. fetch (Str (rewriteUrl (toUrlString input))) init)"

section \<open>The provider factories\<close>

text \<open>The regular expression \<^verbatim>\<open>/\/invocations\/?$/\<close> of line 81.\<close>

definition invocations_re :: "atom list" where
  "invocations_re = map Lit ''/invocations'' @ [Opt CHR ''/'', End]"

definition cleanBaseURL :: "string \<Rightarrow> string" where
  "cleanBaseURL b = regex_replace b invocations_re []"

text \<open>
  \<^verbatim>\<open>config.name || 'databricks'\<close>: the right operand is taken when the left one is
  undefined or the empty string.
\<close>

definition name_or_default :: "string option \<Rightarrow> string" where
  "name_or_default n = (case n of None \<Rightarrow> ''databricks'' | Some s \<Rightarrow> if s = [] then ''databricks'' else s)"

text \<open>
  \<^verbatim>\<open>createDatabricksProvider\<close>, with the external factory and the global fetch as
  arguments: the factory is called on the object literal of lines 84 to 90.
\<close>

definition createDatabricksProvider ::
  "('i, 'w, 'e, 'r, 'p) factory \<Rightarrow> ('i, 'w, 'e, 'r) fetch \<Rightarrow> DatabricksProviderConfig \<Rightarrow> 'w \<Rightarrow> 'p \<times> 'w" where
  "createDatabricksProvider createOpenAICompatible fetch config =
     createOpenAICompatible
       \<lparr> provider_name = name_or_default (name config),
         provider_baseURL = cleanBaseURL (baseURL config),
         provider_apiKey = apiKey config,
         provider_headers = headers config,
         provider_fetch = createDatabricksFetch fetch \<rparr>"

text \<open>
  \<^verbatim>\<open>createDatabricksProviderFromEnv\<close>; \<^verbatim>\<open>process.env\<close> is a map from variable names to
  strings. \<^verbatim>\<open>!v\<close> holds of an undefined and of an empty \<open>v\<close>. A throw is \<open>Inl\<close>, and leaves
  the world as it was.
\<close>

definition createDatabricksProviderFromEnv ::
  "('i, 'w, 'e, 'r, 'p) factory \<Rightarrow> ('i, 'w, 'e, 'r) fetch \<Rightarrow> (string \<rightharpoonup> string) \<Rightarrow> string option
     \<Rightarrow> 'w \<Rightarrow> (error + 'p) \<times> 'w" where
  "createDatabricksProviderFromEnv createOpenAICompatible fetch env nm w =
     (case env ''API_KEY'' of
        None \<Rightarrow> (Inl (Error ''API_KEY environment variable is required''), w)
      | Some API_KEY \<Rightarrow>
          if API_KEY = [] then (Inl (Error ''API_KEY environment variable is required''), w)
          else (case env ''BASE_URL'' of
                  None \<Rightarrow> (Inl (Error ''BASE_URL environment variable is required''), w)
                | Some BASE_URL \<Rightarrow>
                    if BASE_URL = [] then (Inl (Error ''BASE_URL environment variable is required''), w)
                    else (case createDatabricksProvider createOpenAICompatible fetch
                                 \<lparr> baseURL = BASE_URL, apiKey = API_KEY, headers = None, name = nm \<rparr> w of
                            (p, w') \<Rightarrow> (Inr p, w'))))"

section \<open>Stubs for concrete runs\<close>

text \<open>
  A network stub: the world is the list of the calls made so far, and the outcome of a
  call is given by \<open>respond\<close>.
\<close>

definition stub_fetch ::
  "(RequestInfo \<times> 'i option \<Rightarrow> 'e + 'r) \<Rightarrow> ('i, (RequestInfo \<times> 'i option) list, 'e, 'r) fetch" where
  "stub_fetch respond input init calls = (respond (input, init), calls @ [(input, init)])"

text \<open>A factory stub: the provider it returns is the settings object it was given.\<close>

definition stub_factory ::
  "('i, 'w, 'e, 'r, ('i, 'w, 'e, 'r) OpenAICompatibleSettings) factory" where
  "stub_factory settings w = (settings, w)"

text \<open>
  A factory stub that makes one request, to the base URL and through the transport it
  was given, while it constructs the provider; the provider is the settings' name.
\<close>

definition probing_factory :: "('i, 'w, 'e, 'r, string) factory" where
  "probing_factory settings w =
     (provider_name settings,
      snd (provider_fetch settings (Str (provider_baseURL settings)) None w))"

section \<open>Occurrences of a pattern\<close>

text \<open>
  The number of positions of \<open>s\<close> that start with \<open>p\<close>, used to say that a pattern
  occurs at most once.
\<close>

fun count_occ :: "string \<Rightarrow> string \<Rightarrow> nat" where
  "count_occ [] p = (if p = [] then 1 else 0)"
| "count_occ (c # cs) p = (if prefix p (c # cs) then 1 else 0) + count_occ cs p"

section \<open>Facts about the string primitives\<close>

lemma str_includes_iff: "str_includes s p \<longleftrightarrow> sublist p s"
  by (induction s) (auto simp: sublist_Cons_right)

lemma str_replace_absent: "\<not> sublist p s \<Longrightarrow> str_replace s p r = s"
  by (induction s) (auto simp: sublist_Cons_right)

text \<open>
  When the pattern occurs, the string splits around its leftmost occurrence, and the
  replacement stands between the two untouched parts.
\<close>

lemma str_replace_first:
  "sublist p s \<Longrightarrow>
     \<exists>pre post. s = pre @ p @ post
       \<and> (\<forall>pre' post'. s = pre' @ p @ post' \<longrightarrow> length pre \<le> length pre')
       \<and> str_replace s p r = pre @ r @ post"
proof (induction s)
  case Nil
  then have "p = []" by simp
  then show ?case by simp
next
  case (Cons c cs)
  show ?case
  proof (cases "prefix p (c # cs)")
    case True
    then obtain post where "c # cs = p @ post" by (auto simp: prefix_def)
    then have "c # cs = [] @ p @ post \<and> str_replace (c # cs) p r = [] @ r @ post"
      using True by (metis append_Nil append_eq_conv_conj str_replace.simps(2))
    then show ?thesis by (metis le0 list.size(3))
  next
    case False
    with Cons.prems have "sublist p cs" by (simp add: sublist_Cons_right)
    from Cons.IH[OF this] obtain pre post where
      h: "cs = pre @ p @ post" "\<forall>pre' post'. cs = pre' @ p @ post' \<longrightarrow> length pre \<le> length pre'"
         "str_replace cs p r = pre @ r @ post" by blast
    have "c # cs = (c # pre) @ p @ post" using h(1) by simp
    moreover have "str_replace (c # cs) p r = (c # pre) @ r @ post" using False h(3) by simp
    moreover have "\<forall>pre' post'. c # cs = pre' @ p @ post' \<longrightarrow> length (c # pre) \<le> length pre'"
    proof (intro allI impI)
      fix pre' post' assume a: "c # cs = pre' @ p @ post'"
      show "length (c # pre) \<le> length pre'"
      proof (cases pre')
        case Nil
        with a have "prefix p (c # cs)" by (simp add: prefix_def)
        with False show ?thesis by simp
      next
        case (Cons d ds)
        with a have "cs = ds @ p @ post'" by simp
        with h(2) have "length pre \<le> length ds" by blast
        with Cons show ?thesis by simp
      qed
    qed
    ultimately show ?thesis by blast
  qed
qed

lemma str_replace_length:
  "sublist p s \<Longrightarrow> length (str_replace s p r) + length p = length s + length r"
proof (induction s)
  case Nil
  then show ?case by simp
next
  case (Cons c cs)
  show ?case
  proof (cases "prefix p (c # cs)")
    case True
    then have "length p \<le> length (c # cs)" by (rule prefix_length_le)
    with True show ?thesis by simp
  next
    case False
    with Cons.prems have "sublist p cs" by (simp add: sublist_Cons_right)
    with Cons.IH False show ?thesis by simp
  qed
qed

lemma count_occ_zero_iff: "count_occ s p = 0 \<longleftrightarrow> \<not> sublist p s"
  by (induction s) (auto simp: sublist_Cons_right)

text \<open>The count is the number of start positions of the pattern.\<close>

lemma count_occ_card: "count_occ s p = card {i. i \<le> length s \<and> prefix p (drop i s)}"
proof (induction s)
  case Nil
  show ?case by (auto simp: card_eq_0_iff)
next
  case (Cons c cs)
  let ?A = "{i. i \<le> length cs \<and> prefix p (drop i cs)}"
  have fin: "finite ?A" by simp
  have split: "{i. i \<le> length (c # cs) \<and> prefix p (drop i (c # cs))}
      = (if prefix p (c # cs) then {0} else {}) \<union> Suc ` ?A"
  proof (rule set_eqI)
    fix i
    show "i \<in> {i. i \<le> length (c # cs) \<and> prefix p (drop i (c # cs))}
      \<longleftrightarrow> i \<in> (if prefix p (c # cs) then {0} else {}) \<union> Suc ` ?A"
      by (cases i) (auto simp: image_iff)
  qed
  have "card ((if prefix p (c # cs) then {0} else {}) \<union> Suc ` ?A)
      = (if prefix p (c # cs) then 1 else 0) + card ?A"
    using fin by (auto simp: card_insert_if card_image)
  with split Cons.IH show ?case by simp
qed

text \<open>
  A text \<open>q\<close> none of whose non-empty endings can begin where the replacement begins
  is found at the front of the result only if it was at the front of the input.
\<close>

lemma prefix_str_replace:
  assumes "\<And>q' t. q' \<noteq> [] \<Longrightarrow> suffix q' q \<Longrightarrow> \<not> prefix q' (r @ t)"
    and "prefix q (str_replace s p r)"
  shows "prefix q s"
  using assms
proof (induction s arbitrary: q)
  case Nil
  then show ?case by (cases "q = []") (auto split: if_splits dest: Nil.prems(1)[of q "[]"])
next
  case (Cons c cs)
  show ?case
  proof (cases q)
    case Nil
    then show ?thesis by simp
  next
    case q: (Cons x q'')
    show ?thesis
    proof (cases "prefix p (c # cs)")
      case True
      with Cons.prems(2) have "prefix q (r @ drop (length p) (c # cs))" by simp
      moreover have "q \<noteq> []" using q by simp
      ultimately show ?thesis using Cons.prems(1)[of q] by blast
    next
      case False
      with Cons.prems(2) q have x: "x = c" and pq: "prefix q'' (str_replace cs p r)" by auto
      have "\<And>q' t. q' \<noteq> [] \<Longrightarrow> suffix q' q'' \<Longrightarrow> \<not> prefix q' (r @ t)"
        using Cons.prems(1) q by (simp add: suffix_ConsI)
      from Cons.IH[OF this pq] x q show ?thesis by simp
    qed
  qed
qed

lemma prefix_ConsD: "prefix (x # xs) (y # ys) \<Longrightarrow> x = y"
  and prefix_ConsD2: "prefix (x # xs) (y # ys) \<Longrightarrow> prefix xs ys"
  and prefix_ConsI: "prefix xs ys \<Longrightarrow> prefix (x # xs) (x # ys)"
  by simp_all

section \<open>Facts about the URL rewriter\<close>

lemma rewriteUrl_eq: "rewriteUrl u = str_replace u chat_completions invocations"
  by (simp add: rewriteUrl_def str_includes_iff str_replace_absent)

lemma no_clash:
  "q' \<noteq> [] \<Longrightarrow> suffix q' ''chat/completions'' \<Longrightarrow> \<not> prefix q' (''/invocations'' @ t)"
  by (auto simp: suffix_Cons)

lemma prefix_tail_rewrite:
  "prefix ''chat/completions'' (str_replace s chat_completions invocations)
     \<Longrightarrow> prefix ''chat/completions'' s"
  by (rule prefix_str_replace[where r = invocations and p = chat_completions])
     (auto simp: invocations_def dest: no_clash)

lemma count_occ_invocations:
  "count_occ (invocations @ t) chat_completions = count_occ t chat_completions"
  by (simp add: invocations_def chat_completions_def)

lemma count_occ_chat:
  "count_occ (chat_completions @ t) chat_completions = Suc (count_occ t chat_completions)"
  by (simp add: chat_completions_def)

text \<open>One rewrite removes one occurrence of the pattern and creates none.\<close>

lemma count_occ_rewrite:
  "count_occ (str_replace s chat_completions invocations) chat_completions
     = count_occ s chat_completions - 1"
proof (induction s)
  case Nil
  show ?case by (simp add: chat_completions_def)
next
  case (Cons c cs)
  show ?case
  proof (cases "prefix chat_completions (c # cs)")
    case True
    then obtain t where t: "c # cs = chat_completions @ t" by (auto simp: prefix_def)
    have "str_replace (c # cs) chat_completions invocations = invocations @ t"
      using True t by (metis append_eq_conv_conj str_replace.simps(2))
    then show ?thesis unfolding t by (simp add: count_occ_invocations count_occ_chat)
  next
    case False
    have "\<not> prefix chat_completions (c # str_replace cs chat_completions invocations)"
    proof
      assume a: "prefix chat_completions (c # str_replace cs chat_completions invocations)"
      have cc: "chat_completions = CHR ''/'' # ''chat/completions''"
        by (simp add: chat_completions_def)
      from a have c: "CHR ''/'' = c"
        and "prefix ''chat/completions'' (str_replace cs chat_completions invocations)"
        unfolding cc by (rule prefix_ConsD, rule prefix_ConsD2)
      then have "prefix ''chat/completions'' cs" using prefix_tail_rewrite by blast
      then have "prefix chat_completions (c # cs)"
        unfolding cc c[symmetric] by (rule prefix_ConsI)
      with False show False by simp
    qed
    with False Cons.IH show ?thesis by simp
  qed
qed

lemma rewriteUrl_changes: "sublist chat_completions u \<Longrightarrow> rewriteUrl u \<noteq> u"
proof
  assume s: "sublist chat_completions u" and e: "rewriteUrl u = u"
  from str_replace_length[OF s, of invocations] e
  show False by (simp add: rewriteUrl_eq chat_completions_def invocations_def)
qed

text \<open>The rewrite is idempotent on exactly the strings with at most one occurrence.\<close>

lemma rewriteUrl_idem_iff:
  "rewriteUrl (rewriteUrl u) = rewriteUrl u \<longleftrightarrow> count_occ u chat_completions \<le> 1"
proof
  assume "rewriteUrl (rewriteUrl u) = rewriteUrl u"
  with rewriteUrl_changes have "\<not> sublist chat_completions (rewriteUrl u)" by blast
  then have "count_occ (rewriteUrl u) chat_completions = 0" by (simp add: count_occ_zero_iff)
  then show "count_occ u chat_completions \<le> 1" by (simp add: rewriteUrl_eq count_occ_rewrite)
next
  assume "count_occ u chat_completions \<le> 1"
  then have "count_occ (rewriteUrl u) chat_completions = 0"
    by (simp add: rewriteUrl_eq count_occ_rewrite)
  then have "\<not> sublist chat_completions (rewriteUrl u)" by (simp add: count_occ_zero_iff)
  then show "rewriteUrl (rewriteUrl u) = rewriteUrl u"
    by (simp add: rewriteUrl_def str_includes_iff)
qed

text \<open>The wrapper makes the one call: the rewritten URL string, and \<open>init\<close> as given.\<close>

lemma createDatabricksFetch_call:
  "createDatabricksFetch fetch input init = fetch (Str (rewriteUrl (toUrlString input))) init"
  by (simp add: createDatabricksFetch_def)

text \<open>
  For a string or a \<^verbatim>\<open>URL\<close> target, the target holds nothing but the URL, so the call
  differs from the caller's in the URL string alone.
\<close>

lemma createDatabricksFetch_Str:
  "createDatabricksFetch fetch (Str u) init = fetch (Str (rewriteUrl u)) init"
  by (simp add: createDatabricksFetch_def)

text \<open>Two \<^verbatim>\<open>Request\<close> targets with the same URL lead to the same call.\<close>

lemma createDatabricksFetch_Req:
  "url r1 = url r2 \<Longrightarrow>
     createDatabricksFetch fetch (Req r1) init = createDatabricksFetch fetch (Req r2) init"
  by (simp add: createDatabricksFetch_def)

section \<open>Facts about the normalisation of the base URL\<close>

lemma re_match_lits:
  "re_match (map Lit q @ as) s = (if prefix q s then re_match as (drop (length q) s) else None)"
proof (induction q arbitrary: s)
  case Nil
  show ?case by simp
next
  case (Cons a q)
  show ?case by (cases s) (simp_all add: Cons.IH)
qed

lemma re_match_opt_end:
  "re_match [Opt c, End] s = (if s = [] \<or> s = [c] then Some [] else None)"
  by (cases s) auto

text \<open>The pattern matches two strings, and each match is the whole of the string.\<close>

lemma re_match_invocations:
  "re_match invocations_re s =
     (if s = ''/invocations'' \<or> s = ''/invocations/'' then Some [] else None)"
proof (cases "prefix ''/invocations'' s")
  case True
  then obtain t where t: "s = ''/invocations'' @ t" by (auto simp: prefix_def)
  have "re_match invocations_re s = re_match [Opt CHR ''/'', End] t"
    unfolding invocations_re_def re_match_lits using t by simp
  then show ?thesis using t by (simp add: re_match_opt_end)
next
  case False
  then have "re_match invocations_re s = None"
    unfolding invocations_re_def re_match_lits by simp
  moreover from False have "s \<noteq> ''/invocations''" "s \<noteq> ''/invocations/''" by auto
  ultimately show ?thesis by simp
qed

lemma cleanBaseURL_Nil: "cleanBaseURL [] = []"
  by (simp add: cleanBaseURL_def re_match_invocations)

lemma cleanBaseURL_Cons:
  "cleanBaseURL (c # cs) =
     (if c # cs = ''/invocations'' \<or> c # cs = ''/invocations/'' then [] else c # cleanBaseURL cs)"
  by (simp add: cleanBaseURL_def re_match_invocations)

lemma cleanBaseURL_strip: "cleanBaseURL (p @ ''/invocations'') = p"
proof (induction p)
  case Nil
  show ?case by (simp add: cleanBaseURL_Cons)
next
  case (Cons c cs)
  have "c # cs @ ''/invocations'' \<noteq> ''/invocations''"
    by (metis append_self_conv2 append_Cons list.distinct(1))
  moreover have "c # cs @ ''/invocations'' \<noteq> ''/invocations/''"
    by (cases cs rule: rev_cases) auto
  ultimately show ?case using Cons.IH by (simp add: cleanBaseURL_Cons del: One_nat_def)
qed

lemma cleanBaseURL_strip_slash: "cleanBaseURL (p @ ''/invocations/'') = p"
proof (induction p)
  case Nil
  show ?case by (simp add: cleanBaseURL_Cons)
next
  case (Cons c cs)
  have "c # cs @ ''/invocations/'' \<noteq> ''/invocations/''"
    by (metis append_self_conv2 append_Cons list.distinct(1))
  moreover have "c # cs @ ''/invocations/'' \<noteq> ''/invocations''"
    using arg_cong[of "c # cs @ ''/invocations/''" "''/invocations''" length] by auto
  ultimately show ?case using Cons.IH by (simp add: cleanBaseURL_Cons)
qed

lemma cleanBaseURL_other:
  "\<not> suffix ''/invocations'' s \<Longrightarrow> \<not> suffix ''/invocations/'' s \<Longrightarrow> cleanBaseURL s = s"
proof (induction s)
  case Nil
  show ?case by (simp add: cleanBaseURL_Nil)
next
  case (Cons c cs)
  from Cons.prems have ne: "c # cs \<noteq> ''/invocations''" "c # cs \<noteq> ''/invocations/''"
    by (auto simp del: suffix_Cons)
  from Cons.prems have "\<not> suffix ''/invocations'' cs" "\<not> suffix ''/invocations/'' cs"
    by (auto simp: suffix_Cons)
  with Cons.IH have "cleanBaseURL cs = cs" by blast
  with ne show ?case by (simp add: cleanBaseURL_Cons)
qed

section \<open>The URL rewriter: claims\<close>

text \<open>
  C1. When the caller's URL string \<open>u\<close> contains \<^verbatim>\<open>/chat/completions\<close>, it splits
  around the first occurrence (no occurrence starts earlier), and the wrapper calls the
  underlying fetch with the text before that occurrence, \<^verbatim>\<open>/invocations\<close>, and the
  text after it, both as they were. This holds whether \<open>u\<close> is given as a string, as
  the \<open>href\<close> of a \<^verbatim>\<open>URL\<close> object or as the \<open>url\<close> of a \<^verbatim>\<open>Request\<close> object.
\<close>

theorem C1_first_occurrence_replaced:
  assumes "sublist ''/chat/completions'' u"
  shows "\<exists>pre post.
           u = pre @ ''/chat/completions'' @ post
         \<and> (\<forall>pre' post'. u = pre' @ ''/chat/completions'' @ post' \<longrightarrow> length pre \<le> length pre')
         \<and> rewriteUrl u = pre @ ''/invocations'' @ post
         \<and> createDatabricksFetch fetch (Str u) init
              = fetch (Str (pre @ ''/invocations'' @ post)) init
         \<and> createDatabricksFetch fetch (UrlObj \<lparr> href = u \<rparr>) init
              = fetch (Str (pre @ ''/invocations'' @ post)) init
         \<and> createDatabricksFetch fetch
                (Req \<lparr> url = u, req_method = m, req_headers = hs, req_body = b \<rparr>) init
              = fetch (Str (pre @ ''/invocations'' @ post)) init"
proof -
  from str_replace_first[OF assms, of "''/invocations''"]
  obtain pre post where
    h: "u = pre @ ''/chat/completions'' @ post"
       "\<forall>pre' post'. u = pre' @ ''/chat/completions'' @ post' \<longrightarrow> length pre \<le> length pre'"
       "str_replace u ''/chat/completions'' ''/invocations'' = pre @ ''/invocations'' @ post"
    by (elim exE conjE) (rule that)
  from h(3) have r: "rewriteUrl u = pre @ ''/invocations'' @ post"
    by (simp add: rewriteUrl_eq chat_completions_def invocations_def)
  have c1: "createDatabricksFetch fetch (Str u) init
      = fetch (Str (pre @ ''/invocations'' @ post)) init"
    unfolding createDatabricksFetch_call toUrlString.simps r by (rule refl)
  have c2: "createDatabricksFetch fetch (UrlObj \<lparr> href = u \<rparr>) init
      = fetch (Str (pre @ ''/invocations'' @ post)) init"
    unfolding createDatabricksFetch_call toUrlString.simps by (simp add: r)
  have c3: "createDatabricksFetch fetch
        (Req \<lparr> url = u, req_method = m, req_headers = hs, req_body = b \<rparr>) init
      = fetch (Str (pre @ ''/invocations'' @ post)) init"
    unfolding createDatabricksFetch_call toUrlString.simps by (simp add: r)
  show ?thesis
    using h(1) h(2) r c1 c2 c3 by (intro exI conjI)
qed

text \<open>
  A URL with two occurrences, against the network stub: the one recorded call has the
  first occurrence replaced and the second one, like every other character, as it was.
\<close>

theorem C1_first_occurrence_replaced_witness:
  "sublist ''/chat/completions'' ''https://h/m/chat/completions?a=/chat/completions''
   \<and> createDatabricksFetch (stub_fetch (\<lambda>c. Inr ''ok'' :: string + string))
         (Str ''https://h/m/chat/completions?a=/chat/completions'') (None :: RequestInit option) []
       = (Inr ''ok'', [(Str ''https://h/m/invocations?a=/chat/completions'', None)])"
proof -
  let ?u = "''https://h/m/chat/completions?a=/chat/completions''"
  let ?f = "stub_fetch (\<lambda>c. Inr ''ok'' :: string + string)
              :: (RequestInit, (RequestInfo \<times> RequestInit option) list, string, string) fetch"
  have h: "sublist ''/chat/completions'' ?u"
    by (simp add: str_includes_iff[symmetric])
  have e: "rewriteUrl ?u = ''https://h/m/invocations?a=/chat/completions''"
    by (simp add: rewriteUrl_def chat_completions_def invocations_def)
  from C1_first_occurrence_replaced[OF h, where fetch = ?f and init = None
      and m = "''GET''" and hs = "[]" and b = None]
  obtain pre post where
    r: "rewriteUrl ?u = pre @ ''/invocations'' @ post"
    and c: "createDatabricksFetch ?f (Str ?u) None = ?f (Str (pre @ ''/invocations'' @ post)) None"
    by (elim exE conjE) (rule that)
  from r e have p: "pre @ ''/invocations'' @ post = ''https://h/m/invocations?a=/chat/completions''"
    by (rule trans[OF sym])
  have "createDatabricksFetch ?f (Str ?u) None []
      = (Inr ''ok'', [(Str ''https://h/m/invocations?a=/chat/completions'', None)])"
    unfolding c p by (simp add: stub_fetch_def)
  with h show ?thesis by (rule conjI)
qed

text \<open>
  C7. When the caller's URL string \<open>u\<close> does not contain \<^verbatim>\<open>/chat/completions\<close>, the
  wrapper calls the underlying fetch with \<open>u\<close> itself, whether \<open>u\<close> is given as a
  string, as the \<open>href\<close> of a \<^verbatim>\<open>URL\<close> object or as the \<open>url\<close> of a \<^verbatim>\<open>Request\<close> object.
\<close>

theorem C7_absent_unchanged:
  assumes "\<not> sublist ''/chat/completions'' u"
  shows "rewriteUrl u = u
       \<and> createDatabricksFetch fetch (Str u) init = fetch (Str u) init
       \<and> createDatabricksFetch fetch (UrlObj \<lparr> href = u \<rparr>) init = fetch (Str u) init
       \<and> createDatabricksFetch fetch
              (Req \<lparr> url = u, req_method = m, req_headers = hs, req_body = b \<rparr>) init
            = fetch (Str u) init"
proof -
  from assms have r: "rewriteUrl u = u"
    by (simp add: rewriteUrl_def str_includes_iff chat_completions_def)
  then show ?thesis by (simp add: createDatabricksFetch_call)
qed

text \<open>
  A URL that misses the pattern by one character, against the network stub: the one
  recorded call is the caller's string.
\<close>

theorem C7_absent_unchanged_witness:
  "\<not> sublist ''/chat/completions'' ''https://h/m/chat/completion''
   \<and> createDatabricksFetch (stub_fetch (\<lambda>c. Inr ''ok'' :: string + string))
         (Str ''https://h/m/chat/completion'') (None :: RequestInit option) []
       = (Inr ''ok'', [(Str ''https://h/m/chat/completion'', None)])"
proof -
  let ?u = "''https://h/m/chat/completion''"
  let ?f = "stub_fetch (\<lambda>c. Inr ''ok'' :: string + string)
              :: (RequestInit, (RequestInfo \<times> RequestInit option) list, string, string) fetch"
  have h: "\<not> sublist ''/chat/completions'' ?u"
    by (simp add: str_includes_iff[symmetric])
  note c = C7_absent_unchanged[OF h, where fetch = ?f and init = None
      and m = "''GET''" and hs = "[]" and b = None, THEN conjunct2, THEN conjunct1]
  have "createDatabricksFetch ?f (Str ?u) None []
      = (Inr ''ok'', [(Str ''https://h/m/chat/completion'', None)])"
    unfolding c by (simp add: stub_fetch_def)
  with h show ?thesis by (rule conjI)
qed

text \<open>
  C3, as stated: rewriting twice is the same as rewriting once, for every URL string.
  This fails when the pattern occurs twice, since each rewrite replaces one occurrence.
\<close>

theorem C3_idempotent_counterexample:
  "rewriteUrl (rewriteUrl ''https://h/chat/completions/chat/completions'')
     \<noteq> rewriteUrl ''https://h/chat/completions/chat/completions''"
  by (simp add: rewriteUrl_def chat_completions_def invocations_def)

text \<open>
  C3, amended: for every URL string in which \<^verbatim>\<open>/chat/completions\<close> occurs at most once,
  rewriting twice is the same as rewriting once.
\<close>

theorem C3_idempotent_at_most_once:
  assumes "count_occ u ''/chat/completions'' \<le> 1"
  shows "rewriteUrl (rewriteUrl u) = rewriteUrl u"
  using assms by (simp add: rewriteUrl_idem_iff chat_completions_def)

theorem C3_idempotent_at_most_once_witness:
  "count_occ ''https://h/m/chat/completions'' ''/chat/completions'' \<le> 1
   \<and> rewriteUrl (rewriteUrl ''https://h/m/chat/completions'') = rewriteUrl ''https://h/m/chat/completions''"
proof -
  have h: "count_occ ''https://h/m/chat/completions'' ''/chat/completions'' \<le> 1"
    by simp
  from h C3_idempotent_at_most_once[OF h] show ?thesis by blast
qed

text \<open>
  C4, at a \<^verbatim>\<open>Request\<close> target: a POST request with a header and a body, and no options.
  The one call that reaches the network stub is the rewritten URL string with no options,
  so the method, the header and the body of the caller's request are not in it.
\<close>

theorem C4_request_fields_dropped:
  "createDatabricksFetch (stub_fetch (\<lambda>c. Inr ''ok'' :: string + string))
     (Req \<lparr> url = ''https://h/m/chat/completions'', req_method = ''POST'',
            req_headers = [(''content-type'', ''application/json'')],
            req_body = Some ''{}'' \<rparr>)
     (None :: RequestInit option) []
   = (Inr ''ok'', [(Str ''https://h/m/invocations'', None)])"
  by (simp add: createDatabricksFetch_def stub_fetch_def rewriteUrl_def
        chat_completions_def invocations_def)

text \<open>
  C8. When the underlying call, made on the rewritten URL string and the caller's
  options, is rejected with \<open>e\<close>, the wrapper is rejected with the same \<open>e\<close>, and
  the world after the wrapper is the world after that one call: nothing is caught,
  replaced or tried again.
\<close>

theorem C8_error_propagates:
  assumes "fetch (Str (rewriteUrl (toUrlString input))) init w = (Inl e, w')"
  shows "createDatabricksFetch fetch input init w = (Inl e, w')"
  using assms by (simp add: createDatabricksFetch_def)

text \<open>Against the network stub: the rejection is the stub's, and one call is recorded.\<close>

theorem C8_error_propagates_witness:
  "stub_fetch (\<lambda>c. Inl ''ECONNREFUSED'' :: string + string)
       (Str (rewriteUrl (toUrlString (Str ''https://h/m/chat/completions''))))
       (Some \<lparr> init_method = Some ''POST'', init_headers = None, init_body = Some ''{}'' \<rparr>) []
     = (Inl ''ECONNREFUSED'',
        [(Str ''https://h/m/invocations'',
          Some \<lparr> init_method = Some ''POST'', init_headers = None, init_body = Some ''{}'' \<rparr>)])
   \<and> createDatabricksFetch (stub_fetch (\<lambda>c. Inl ''ECONNREFUSED'' :: string + string))
       (Str ''https://h/m/chat/completions'')
       (Some \<lparr> init_method = Some ''POST'', init_headers = None, init_body = Some ''{}'' \<rparr>) []
     = (Inl ''ECONNREFUSED'',
        [(Str ''https://h/m/invocations'',
          Some \<lparr> init_method = Some ''POST'', init_headers = None, init_body = Some ''{}'' \<rparr>)])"
proof -
  have r: "rewriteUrl ''https://h/m/chat/completions'' = ''https://h/m/invocations''"
    by (simp add: rewriteUrl_def chat_completions_def invocations_def)
  have h: "stub_fetch (\<lambda>c. Inl ''ECONNREFUSED'' :: string + string)
       (Str (rewriteUrl (toUrlString (Str ''https://h/m/chat/completions''))))
       (Some \<lparr> init_method = Some ''POST'', init_headers = None, init_body = Some ''{}'' \<rparr>) []
     = (Inl ''ECONNREFUSED'',
        [(Str ''https://h/m/invocations'',
          Some \<lparr> init_method = Some ''POST'', init_headers = None, init_body = Some ''{}'' \<rparr>)])"
    by (simp add: stub_fetch_def r)
  from h C8_error_propagates[of "stub_fetch (\<lambda>c. Inl ''ECONNREFUSED'' :: string + string)"
      "Str ''https://h/m/chat/completions''" _ "[]" "''ECONNREFUSED''", OF h]
  show ?thesis by (rule conjI)
qed

section \<open>The provider factories: claims\<close>

text \<open>
  C2. The factory is called on settings whose base URL is the configured one without a
  trailing \<^verbatim>\<open>/invocations\<close> or \<^verbatim>\<open>/invocations/\<close>, and the configured one itself when it
  has neither ending; the two examples of the specification are instances.
\<close>

theorem C2_baseURL_normalized:
  "\<exists>s. createDatabricksProvider factory fetch config = factory s
     \<and> (\<forall>p. baseURL config = p @ ''/invocations'' \<or> baseURL config = p @ ''/invocations/''
            \<longrightarrow> provider_baseURL s = p)
     \<and> (\<not> suffix ''/invocations'' (baseURL config) \<and> \<not> suffix ''/invocations/'' (baseURL config)
            \<longrightarrow> provider_baseURL s = baseURL config)
     \<and> cleanBaseURL ''https://host/serving-endpoints/m/invocations'' = ''https://host/serving-endpoints/m''
     \<and> cleanBaseURL ''https://host/serving-endpoints/m'' = ''https://host/serving-endpoints/m''"
proof -
  have e1: "cleanBaseURL ''https://host/serving-endpoints/m/invocations'' = ''https://host/serving-endpoints/m''"
    using cleanBaseURL_strip[of "''https://host/serving-endpoints/m''"] by simp
  have e2: "cleanBaseURL ''https://host/serving-endpoints/m'' = ''https://host/serving-endpoints/m''"
    by (rule cleanBaseURL_other) (simp_all add: suffix_to_prefix)
  let ?s = "\<lparr> provider_name = name_or_default (name config),
              provider_baseURL = cleanBaseURL (baseURL config),
              provider_apiKey = apiKey config,
              provider_headers = headers config,
              provider_fetch = createDatabricksFetch fetch \<rparr>"
  have "createDatabricksProvider factory fetch config = factory ?s"
    by (simp add: createDatabricksProvider_def)
  moreover have "\<forall>p. baseURL config = p @ ''/invocations'' \<or> baseURL config = p @ ''/invocations/''
            \<longrightarrow> provider_baseURL ?s = p"
    using cleanBaseURL_strip cleanBaseURL_strip_slash by auto
  moreover have "\<not> suffix ''/invocations'' (baseURL config) \<and> \<not> suffix ''/invocations/'' (baseURL config)
            \<longrightarrow> provider_baseURL ?s = baseURL config"
    using cleanBaseURL_other by auto
  ultimately show ?thesis using e1 e2 by blast
qed

text \<open>
  The two examples run through the factory stub, whose provider is the settings object:
  the first base URL loses its ending, the second is passed as it is.
\<close>

theorem C2_baseURL_normalized_witness:
  "provider_baseURL (fst (createDatabricksProvider stub_factory
       (stub_fetch (\<lambda>c. Inr ''ok'' :: string + string) :: (RequestInit, _, _, _) fetch)
       \<lparr> baseURL = ''https://host/serving-endpoints/m/invocations'', apiKey = ''k'',
         headers = None, name = None \<rparr> []))
     = ''https://host/serving-endpoints/m''
   \<and> \<not> suffix ''/invocations'' ''https://host/serving-endpoints/m''
   \<and> \<not> suffix ''/invocations/'' ''https://host/serving-endpoints/m''
   \<and> provider_baseURL (fst (createDatabricksProvider stub_factory
       (stub_fetch (\<lambda>c. Inr ''ok'' :: string + string) :: (RequestInit, _, _, _) fetch)
       \<lparr> baseURL = ''https://host/serving-endpoints/m'', apiKey = ''k'',
         headers = None, name = None \<rparr> []))
     = ''https://host/serving-endpoints/m''"
proof -
  let ?f = "stub_fetch (\<lambda>c. Inr ''ok'' :: string + string) :: (RequestInit, _, _, _) fetch"
  let ?c1 = "\<lparr> baseURL = ''https://host/serving-endpoints/m/invocations'', apiKey = ''k'',
                headers = None, name = None \<rparr>"
  let ?c2 = "\<lparr> baseURL = ''https://host/serving-endpoints/m'', apiKey = ''k'',
                headers = None, name = None \<rparr>"
  have n: "\<not> suffix ''/invocations'' ''https://host/serving-endpoints/m''"
          "\<not> suffix ''/invocations/'' ''https://host/serving-endpoints/m''"
    by (simp_all add: suffix_to_prefix)
  from C2_baseURL_normalized[of stub_factory ?f ?c1]
  obtain s1 where s1: "createDatabricksProvider stub_factory ?f ?c1 = stub_factory s1"
    and p1: "\<forall>p. baseURL ?c1 = p @ ''/invocations'' \<or> baseURL ?c1 = p @ ''/invocations/''
            \<longrightarrow> provider_baseURL s1 = p"
    by (elim exE conjE) (rule that)
  have "baseURL ?c1 = ''https://host/serving-endpoints/m'' @ ''/invocations''" by simp
  with p1 have "provider_baseURL s1 = ''https://host/serving-endpoints/m''" by blast
  with s1 have r1: "provider_baseURL (fst (createDatabricksProvider stub_factory ?f ?c1 []))
      = ''https://host/serving-endpoints/m''"
    by (simp add: stub_factory_def)
  from C2_baseURL_normalized[of stub_factory ?f ?c2]
  obtain s2 where s2: "createDatabricksProvider stub_factory ?f ?c2 = stub_factory s2"
    and p2: "\<not> suffix ''/invocations'' (baseURL ?c2) \<and> \<not> suffix ''/invocations/'' (baseURL ?c2)
            \<longrightarrow> provider_baseURL s2 = baseURL ?c2"
    by (elim exE conjE) (rule that)
  from p2 n have "provider_baseURL s2 = ''https://host/serving-endpoints/m''" by simp
  with s2 have r2: "provider_baseURL (fst (createDatabricksProvider stub_factory ?f ?c2 []))
      = ''https://host/serving-endpoints/m''"
    by (simp add: stub_factory_def)
  show ?thesis using r1 n r2 by (intro conjI)
qed

text \<open>
  C9. With the name unset the factory is called on settings named \<^verbatim>\<open>databricks\<close>; with
  the name set to a non-empty string it is called on settings of that name.
\<close>

theorem C9_provider_name:
  "\<exists>s. createDatabricksProvider factory fetch config = factory s
     \<and> (name config = None \<longrightarrow> provider_name s = ''databricks'')
     \<and> (\<forall>n. name config = Some n \<and> n \<noteq> [] \<longrightarrow> provider_name s = n)"
proof (intro exI conjI)
  show "createDatabricksProvider factory fetch config
      = factory \<lparr> provider_name = name_or_default (name config),
                  provider_baseURL = cleanBaseURL (baseURL config),
                  provider_apiKey = apiKey config,
                  provider_headers = headers config,
                  provider_fetch = createDatabricksFetch fetch \<rparr>"
    by (simp add: createDatabricksProvider_def)
  show "name config = None \<longrightarrow>
      provider_name \<lparr> provider_name = name_or_default (name config),
                  provider_baseURL = cleanBaseURL (baseURL config),
                  provider_apiKey = apiKey config,
                  provider_headers = headers config,
                  provider_fetch = createDatabricksFetch fetch \<rparr> = ''databricks''"
    by (simp add: name_or_default_def)
  show "\<forall>n. name config = Some n \<and> n \<noteq> [] \<longrightarrow>
      provider_name \<lparr> provider_name = name_or_default (name config),
                  provider_baseURL = cleanBaseURL (baseURL config),
                  provider_apiKey = apiKey config,
                  provider_headers = headers config,
                  provider_fetch = createDatabricksFetch fetch \<rparr> = n"
    by (simp add: name_or_default_def)
qed

theorem C9_provider_name_witness:
  "provider_name (fst (createDatabricksProvider stub_factory
       (stub_fetch (\<lambda>c. Inr ''ok'' :: string + string) :: (RequestInit, _, _, _) fetch)
       \<lparr> baseURL = ''https://h/m'', apiKey = ''k'', headers = None, name = None \<rparr> []))
     = ''databricks''
   \<and> provider_name (fst (createDatabricksProvider stub_factory
       (stub_fetch (\<lambda>c. Inr ''ok'' :: string + string) :: (RequestInit, _, _, _) fetch)
       \<lparr> baseURL = ''https://h/m'', apiKey = ''k'', headers = None, name = Some ''llama'' \<rparr> []))
     = ''llama''"
proof -
  let ?f = "stub_fetch (\<lambda>c. Inr ''ok'' :: string + string) :: (RequestInit, _, _, _) fetch"
  let ?c1 = "\<lparr> baseURL = ''https://h/m'', apiKey = ''k'', headers = None, name = None \<rparr>"
  let ?c2 = "\<lparr> baseURL = ''https://h/m'', apiKey = ''k'', headers = None, name = Some ''llama'' \<rparr>"
  from C9_provider_name[of stub_factory ?f ?c1]
  obtain s1 where s1: "createDatabricksProvider stub_factory ?f ?c1 = stub_factory s1"
    and p1: "name ?c1 = None \<longrightarrow> provider_name s1 = ''databricks''"
    by (elim exE conjE) (rule that)
  from p1 have "provider_name s1 = ''databricks''" by simp
  with s1 have r1: "provider_name (fst (createDatabricksProvider stub_factory ?f ?c1 [])) = ''databricks''"
    by (simp add: stub_factory_def)
  from C9_provider_name[of stub_factory ?f ?c2]
  obtain s2 where s2: "createDatabricksProvider stub_factory ?f ?c2 = stub_factory s2"
    and p2: "\<forall>n. name ?c2 = Some n \<and> n \<noteq> [] \<longrightarrow> provider_name s2 = n"
    by (elim exE conjE) (rule that)
  from p2 have "name ?c2 = Some ''llama'' \<and> ''llama'' \<noteq> [] \<longrightarrow> provider_name s2 = ''llama''"
    by (rule spec)
  then have "provider_name s2 = ''llama''" by simp
  with s2 have r2: "provider_name (fst (createDatabricksProvider stub_factory ?f ?c2 [])) = ''llama''"
    by (simp add: stub_factory_def)
  from r1 r2 show ?thesis by (rule conjI)
qed

text \<open>
  C10. With the name set to the empty string the factory is called on settings named
  \<^verbatim>\<open>databricks\<close>, and the call is the one made when the name is unset.
\<close>

theorem C10_empty_name_defaults:
  assumes "name config = Some []"
  shows "(\<exists>s. createDatabricksProvider factory fetch config = factory s
            \<and> provider_name s = ''databricks'')
       \<and> createDatabricksProvider factory fetch config
           = createDatabricksProvider factory fetch (config\<lparr>name := None\<rparr>)"
proof -
  let ?s = "\<lparr> provider_name = name_or_default (name config),
              provider_baseURL = cleanBaseURL (baseURL config),
              provider_apiKey = apiKey config,
              provider_headers = headers config,
              provider_fetch = createDatabricksFetch fetch \<rparr>"
  have "createDatabricksProvider factory fetch config = factory ?s"
    by (simp add: createDatabricksProvider_def)
  moreover have "provider_name ?s = ''databricks''"
    using assms by (simp add: name_or_default_def)
  moreover have "createDatabricksProvider factory fetch config
      = createDatabricksProvider factory fetch (config\<lparr>name := None\<rparr>)"
    using assms by (simp add: createDatabricksProvider_def name_or_default_def)
  ultimately show ?thesis by blast
qed

theorem C10_empty_name_defaults_witness:
  "name \<lparr> baseURL = ''https://h/m'', apiKey = ''k'', headers = None, name = Some [] \<rparr> = Some []
   \<and> provider_name (fst (createDatabricksProvider stub_factory
       (stub_fetch (\<lambda>c. Inr ''ok'' :: string + string) :: (RequestInit, _, _, _) fetch)
       \<lparr> baseURL = ''https://h/m'', apiKey = ''k'', headers = None, name = Some [] \<rparr> []))
     = ''databricks''"
proof -
  let ?f = "stub_fetch (\<lambda>c. Inr ''ok'' :: string + string) :: (RequestInit, _, _, _) fetch"
  let ?c = "\<lparr> baseURL = ''https://h/m'', apiKey = ''k'', headers = None, name = Some [] \<rparr>"
  have h: "name ?c = Some []" by simp
  from C10_empty_name_defaults[OF h, of stub_factory ?f]
  obtain s where s: "createDatabricksProvider stub_factory ?f ?c = stub_factory s"
    and p: "provider_name s = ''databricks''"
    by (elim exE conjE) (rule that)
  from s p have "provider_name (fst (createDatabricksProvider stub_factory ?f ?c [])) = ''databricks''"
    by (simp add: stub_factory_def)
  with h show ?thesis by (rule conjI)
qed

text \<open>
  C5. With \<^verbatim>\<open>API_KEY\<close> unset or empty the call throws the error whose message names
  \<^verbatim>\<open>API_KEY\<close>; with \<^verbatim>\<open>API_KEY\<close> non-empty and \<^verbatim>\<open>BASE_URL\<close> unset or empty it throws
  the error whose message names \<^verbatim>\<open>BASE_URL\<close>. In both cases the world is left as it
  was, whatever the factory and the fetch are: no provider is constructed and no request
  is made.
\<close>

theorem C5_missing_variable_throws:
  "(env ''API_KEY'' = None \<or> env ''API_KEY'' = Some [] \<longrightarrow>
      createDatabricksProviderFromEnv factory fetch env nm w
        = (Inl (Error ''API_KEY environment variable is required''), w))
   \<and> (\<forall>k. env ''API_KEY'' = Some k \<and> k \<noteq> []
          \<and> (env ''BASE_URL'' = None \<or> env ''BASE_URL'' = Some []) \<longrightarrow>
      createDatabricksProviderFromEnv factory fetch env nm w
        = (Inl (Error ''BASE_URL environment variable is required''), w))
   \<and> sublist ''API_KEY'' ''API_KEY environment variable is required''
   \<and> sublist ''BASE_URL'' ''BASE_URL environment variable is required''"
proof (intro conjI allI impI)
  assume "env ''API_KEY'' = None \<or> env ''API_KEY'' = Some []"
  then show "createDatabricksProviderFromEnv factory fetch env nm w
        = (Inl (Error ''API_KEY environment variable is required''), w)"
    by (auto simp: createDatabricksProviderFromEnv_def)
next
  fix k
  assume "env ''API_KEY'' = Some k \<and> k \<noteq> []
          \<and> (env ''BASE_URL'' = None \<or> env ''BASE_URL'' = Some [])"
  then show "createDatabricksProviderFromEnv factory fetch env nm w
        = (Inl (Error ''BASE_URL environment variable is required''), w)"
    by (auto simp: createDatabricksProviderFromEnv_def)
next
  show "sublist ''API_KEY'' ''API_KEY environment variable is required''"
    by (simp add: str_includes_iff[symmetric])
next
  show "sublist ''BASE_URL'' ''BASE_URL environment variable is required''"
    by (simp add: str_includes_iff[symmetric])
qed

text \<open>
  Three environments, run with a factory that would make a request while it constructs
  the provider: no call reaches the network stub.
\<close>

theorem C5_missing_variable_throws_witness:
  "createDatabricksProviderFromEnv probing_factory
       (stub_fetch (\<lambda>c. Inr ''ok'' :: string + string) :: (RequestInit, _, _, _) fetch)
       [''BASE_URL'' \<mapsto> ''https://h/m''] None []
     = (Inl (Error ''API_KEY environment variable is required''), [])
   \<and> createDatabricksProviderFromEnv probing_factory
       (stub_fetch (\<lambda>c. Inr ''ok'' :: string + string) :: (RequestInit, _, _, _) fetch)
       [''API_KEY'' \<mapsto> [], ''BASE_URL'' \<mapsto> ''https://h/m''] None []
     = (Inl (Error ''API_KEY environment variable is required''), [])
   \<and> createDatabricksProviderFromEnv probing_factory
       (stub_fetch (\<lambda>c. Inr ''ok'' :: string + string) :: (RequestInit, _, _, _) fetch)
       [''API_KEY'' \<mapsto> ''k'', ''BASE_URL'' \<mapsto> []] None []
     = (Inl (Error ''BASE_URL environment variable is required''), [])"
proof -
  let ?f = "stub_fetch (\<lambda>c. Inr ''ok'' :: string + string) :: (RequestInit, _, _, _) fetch"
  let ?e1 = "[''BASE_URL'' \<mapsto> ''https://h/m'']"
  let ?e2 = "[''API_KEY'' \<mapsto> [], ''BASE_URL'' \<mapsto> ''https://h/m'']"
  let ?e3 = "[''API_KEY'' \<mapsto> ''k'', ''BASE_URL'' \<mapsto> []]"
  have h1: "?e1 ''API_KEY'' = None \<or> ?e1 ''API_KEY'' = Some []" by simp
  have h2: "?e2 ''API_KEY'' = None \<or> ?e2 ''API_KEY'' = Some []" by simp
  have h3: "?e3 ''API_KEY'' = Some ''k'' \<and> ''k'' \<noteq> []
          \<and> (?e3 ''BASE_URL'' = None \<or> ?e3 ''BASE_URL'' = Some [])" by simp
  note t1 = C5_missing_variable_throws[of ?e1 probing_factory ?f None "[]", THEN conjunct1, rule_format, OF h1]
  note t2 = C5_missing_variable_throws[of ?e2 probing_factory ?f None "[]", THEN conjunct1, rule_format, OF h2]
  note t3 = C5_missing_variable_throws[of ?e3 probing_factory ?f None "[]", THEN conjunct2, THEN conjunct1,
      rule_format, OF h3]
  show ?thesis using t1 t2 t3 by (intro conjI)
qed

text \<open>
  C6. With both variables non-empty, the call without a name returns what
  \<^verbatim>\<open>createDatabricksProvider\<close> returns on the base URL and the key of the environment,
  with no headers and no name: the factory is called on the same settings, in the same
  world, and nothing is thrown.
\<close>

theorem C6_env_delegates:
  assumes "env ''API_KEY'' = Some k" and "k \<noteq> []"
    and "env ''BASE_URL'' = Some b" and "b \<noteq> []"
  shows "createDatabricksProviderFromEnv factory fetch env None w
           = (case createDatabricksProvider factory fetch
                     \<lparr> baseURL = b, apiKey = k, headers = None, name = None \<rparr> w of
                (p, w') \<Rightarrow> (Inr p, w'))
       \<and> createDatabricksProviderFromEnv factory fetch env None w
           = (case factory \<lparr> provider_name = ''databricks'',
                              provider_baseURL = cleanBaseURL b,
                              provider_apiKey = k,
                              provider_headers = None,
                              provider_fetch = createDatabricksFetch fetch \<rparr> w of
                (p, w') \<Rightarrow> (Inr p, w'))"
  using assms
  by (simp add: createDatabricksProviderFromEnv_def createDatabricksProvider_def name_or_default_def)

theorem C6_env_delegates_witness:
  "createDatabricksProviderFromEnv probing_factory
       (stub_fetch (\<lambda>c. Inr ''ok'' :: string + string) :: (RequestInit, _, _, _) fetch)
       [''API_KEY'' \<mapsto> ''k'', ''BASE_URL'' \<mapsto> ''https://h/m/invocations''] None []
     = (Inr ''databricks'', [(Str ''https://h/m'', None)])
   \<and> createDatabricksProvider probing_factory
       (stub_fetch (\<lambda>c. Inr ''ok'' :: string + string) :: (RequestInit, _, _, _) fetch)
       \<lparr> baseURL = ''https://h/m/invocations'', apiKey = ''k'', headers = None, name = None \<rparr> []
     = (''databricks'', [(Str ''https://h/m'', None)])"
proof -
  let ?f = "stub_fetch (\<lambda>c. Inr ''ok'' :: string + string) :: (RequestInit, _, _, _) fetch"
  let ?e = "[''API_KEY'' \<mapsto> ''k'', ''BASE_URL'' \<mapsto> ''https://h/m/invocations'']"
  have h: "?e ''API_KEY'' = Some ''k''" "''k'' \<noteq> []"
    "?e ''BASE_URL'' = Some ''https://h/m/invocations''" "''https://h/m/invocations'' \<noteq> []"
    by simp_all
  have c: "cleanBaseURL ''https://h/m/invocations'' = ''https://h/m''"
    using cleanBaseURL_strip[of "''https://h/m''"] by simp
  have u: "rewriteUrl ''https://h/m'' = ''https://h/m''"
    by (simp add: rewriteUrl_def chat_completions_def)
  have d: "createDatabricksProvider probing_factory ?f
       \<lparr> baseURL = ''https://h/m/invocations'', apiKey = ''k'', headers = None, name = None \<rparr> []
     = (''databricks'', [(Str ''https://h/m'', None)])"
    by (simp add: createDatabricksProvider_def probing_factory_def name_or_default_def c u
          createDatabricksFetch_def stub_fetch_def)
  note t = C6_env_delegates[OF h, of probing_factory ?f "[]", THEN conjunct1]
  have r: "createDatabricksProviderFromEnv probing_factory ?f ?e None []
      = (Inr ''databricks'', [(Str ''https://h/m'', None)])"
    unfolding t d by simp
  from r d show ?thesis by (rule conjI)
qed

end
